theory Spec2Isabelle
  imports Main "HOL-Library.Sublist"
begin


section \<open>Strings, decimal numerals and exceptions\<close>

text \<open>
  Python strings are modelled as \<open>string\<close>; a \<open>char\<close> stands for a code point below
  256.  In that range the regular-expression class \<open>\d\<close> is exactly the ASCII digits,
  and \<open>.\<close> (without DOTALL) is every character except the line feed.
\<close>

datatype error =
    ValueError string
  | KeyError string
  | OverflowError string
  | RequestException string
  | OtherError string

text \<open>\<open>str(e)\<close>; a KeyError prints the \<open>repr\<close> of its key.\<close>

fun str_error :: "error \<Rightarrow> string" where
  "str_error (ValueError m) = m"
| "str_error (KeyError k) = [CHR 0x27] @ k @ [CHR 0x27]"
| "str_error (OverflowError m) = m"
| "str_error (RequestException m) = m"
| "str_error (OtherError m) = m"

text \<open>\<open>isinstance(e, requests.exceptions.RequestException)\<close>\<close>

fun is_request_exception :: "error \<Rightarrow> bool" where
  "is_request_exception (RequestException m) = True"
| "is_request_exception e = False"

definition is_digit :: "char \<Rightarrow> bool" where
  "is_digit c = (c \<in> set ''0123456789'')"

definition digit_char :: "nat \<Rightarrow> char" where
  "digit_char n = ''0123456789'' ! n"

definition digit_val :: "char \<Rightarrow> nat" where
  "digit_val c = length (takeWhile (\<lambda>x. x \<noteq> c) ''0123456789'')"

text \<open>\<open>str(n)\<close> for a non-negative integer.\<close>

fun str_nat :: "nat \<Rightarrow> string" where
  "str_nat n = (if n < 10 then [digit_char n] else str_nat (n div 10) @ [digit_char (n mod 10)])"

declare str_nat.simps [simp del]

text \<open>
  \<open>int(s)\<close> on a string of decimal digits.  Python integers are unbounded, and so is
  \<open>nat\<close>; the limit that recent interpreters put on the number of digits is left out.
\<close>

definition int_of_digits :: "string \<Rightarrow> nat" where
  "int_of_digits s = foldl (\<lambda>acc c. 10 * acc + digit_val c) 0 s"

text \<open>Zero padding to a field width, as \<open>%Y\<close>, \<open>%m\<close> and \<open>%d\<close> of \<open>strftime\<close> do.\<close>

definition zfill :: "nat \<Rightarrow> string \<Rightarrow> string" where
  "zfill w s = replicate (w - length s) (CHR ''0'') @ s"

section \<open>Calendar dates\<close>

text \<open>
  A \<open>datetime\<close> of the program always has a zero time of day (it comes from
  \<open>strptime\<close> with a date-only format, or from truncating \<open>now()\<close>), so only the
  calendar fields are kept.
\<close>

record datetime =
  year :: nat
  month :: nat
  day :: nat

definition is_leap :: "nat \<Rightarrow> bool" where
  "is_leap y = (y mod 4 = 0 \<and> (y mod 100 \<noteq> 0 \<or> y mod 400 = 0))"

definition days_in_month :: "nat \<Rightarrow> nat \<Rightarrow> nat" where
  "days_in_month y m =
     (if m = 2 then (if is_leap y then 29 else 28)
      else if m \<in> {4, 6, 9, 11} then 30 else 31)"

text \<open>The check of the \<open>datetime\<close> constructor (\<open>MINYEAR = 1\<close>, \<open>MAXYEAR = 9999\<close>).\<close>

definition valid_date :: "datetime \<Rightarrow> bool" where
  "valid_date dt =
     (1 \<le> year dt \<and> year dt \<le> 9999 \<and> 1 \<le> month dt \<and> month dt \<le> 12 \<and>
      1 \<le> day dt \<and> day dt \<le> days_in_month (year dt) (month dt))"

text \<open>
  \<open>dt.strftime('%Y%m%d')\<close> and \<open>dt.strftime('%Y-%m-%d')\<close>.  The year is written
  on four digits, padded with zeros, as the documentation of \<open>%Y\<close> has it (0001 to
  9999).
\<close>

definition strftime_compact :: "datetime \<Rightarrow> string" where
  "strftime_compact dt =
     zfill 4 (str_nat (year dt)) @ zfill 2 (str_nat (month dt)) @ zfill 2 (str_nat (day dt))"

definition strftime_iso :: "datetime \<Rightarrow> string" where
  "strftime_iso dt =
     zfill 4 (str_nat (year dt)) @ ''-'' @ zfill 2 (str_nat (month dt)) @ ''-'' @
     zfill 2 (str_nat (day dt))"

section \<open>Regular expressions with greedy backtracking\<close>

text \<open>
  The two patterns of the program are sequences of literals and capturing groups.  A
  group is given by the lengths of its possible matches at the head of the input, in
  the order in which the backtracking matcher of \<open>re\<close> tries them.  \<open>re.match\<close>
  anchors the pattern at the start of the string only.
\<close>

datatype item = Lit string | Grp "string \<Rightarrow> nat list"

fun first_some :: "'a option list \<Rightarrow> 'a option" where
  "first_some [] = None"
| "first_some (None # xs) = first_some xs"
| "first_some (Some x # xs) = Some x"

fun re_match :: "item list \<Rightarrow> string \<Rightarrow> string list option" where
  "re_match [] s = Some []"
| "re_match (Lit l # r) s =
     (if prefix l s then re_match r (drop (length l) s) else None)"
| "re_match (Grp c # r) s =
     first_some (map (\<lambda>n. map_option ((#) (take n s)) (re_match r (drop n s))) (c s))"

text \<open>\<open>cls{n}\<close>: exactly \<open>n\<close> characters of the class.\<close>

definition exactly :: "(char \<Rightarrow> bool) \<Rightarrow> nat \<Rightarrow> string \<Rightarrow> nat list" where
  "exactly cls n s = (if n \<le> length (takeWhile cls s) then [n] else [])"

text \<open>\<open>cls+\<close>: one or more characters of the class, the longest run first.\<close>

definition one_or_more :: "(char \<Rightarrow> bool) \<Rightarrow> string \<Rightarrow> nat list" where
  "one_or_more cls s = rev [1 ..< Suc (length (takeWhile cls s))]"

text \<open>An alternation of fixed sequences of character classes, left to right.\<close>

definition match_seq :: "(char \<Rightarrow> bool) list \<Rightarrow> string \<Rightarrow> bool" where
  "match_seq ps s = (length ps \<le> length s \<and> list_all (\<lambda>(p, c). p c) (zip ps s))"

definition alts :: "(char \<Rightarrow> bool) list list \<Rightarrow> string \<Rightarrow> nat list" where
  "alts as s = map length (filter (\<lambda>ps. match_seq ps s) as)"

definition chr_in :: "string \<Rightarrow> char \<Rightarrow> bool" where
  "chr_in cs c = (c \<in> set cs)"

definition not_newline :: "char \<Rightarrow> bool" where
  "not_newline c = (c \<noteq> CHR 0x0A)"

section \<open>\<open>datetime.strptime(s, '%Y%m%d')\<close>\<close>

text \<open>
  \<open>_strptime\<close> turns the format into the regular expression
  \<^verbatim>\<open>(?P<Y>\d\d\d\d)(?P<m>1[0-2]|0[1-9]|[1-9])(?P<d>3[0-1]|[1-2]\d|0[1-9]|[1-9]| [1-9])\<close>,
  raises ValueError when it does not match or does not consume the whole string, and
  builds the date from the three groups, which raises ValueError when the fields are
  out of range.  The last alternative of the day admits a leading blank, which \<open>int\<close>
  skips.
\<close>

definition re_Y :: "(char \<Rightarrow> bool) list list" where
  "re_Y = [ [is_digit, is_digit, is_digit, is_digit] ]"

definition re_m :: "(char \<Rightarrow> bool) list list" where
  "re_m = [ [chr_in ''1'', chr_in ''012''], [chr_in ''0'', chr_in ''123456789''],
            [chr_in ''123456789''] ]"

definition re_d :: "(char \<Rightarrow> bool) list list" where
  "re_d = [ [chr_in ''3'', chr_in ''01''], [chr_in ''12'', is_digit],
            [chr_in ''0'', chr_in ''123456789''], [chr_in ''123456789''],
            [chr_in '' '', chr_in ''123456789''] ]"

definition strptime_compact :: "string \<Rightarrow> error + datetime" where
  "strptime_compact s =
     (case re_match [Grp (alts re_Y), Grp (alts re_m), Grp (alts re_d)] s of
        Some [Y, m, d] \<Rightarrow>
          if length s \<noteq> length Y + length m + length d
          then Inl (ValueError ''unconverted data remains'')
          else
            let dt = \<lparr>year = int_of_digits Y, month = int_of_digits m,
                      day = int_of_digits (dropWhile (\<lambda>c. c = CHR '' '') d)\<rparr>
            in if valid_date dt then Inr dt else Inl (ValueError ''date value out of range'')
      | _ \<Rightarrow> Inl (ValueError ''time data does not match format''))"

section \<open>Paths\<close>

text \<open>\<open>s.rfind(c)\<close> for a one-character \<open>c\<close>: the last index of \<open>c\<close>, or \<open>-1\<close>.\<close>

definition rfind :: "char \<Rightarrow> string \<Rightarrow> int" where
  "rfind c s =
     (if c \<in> set s then int (length s) - 1 - int (length (takeWhile (\<lambda>x. x \<noteq> c) (rev s)))
      else - 1)"

text \<open>\<open>os.path.basename\<close> (POSIX).\<close>

definition basename :: "string \<Rightarrow> string" where
  "basename p = drop (nat (rfind (CHR ''/'') p + 1)) p"

section \<open>Filename codec\<close>

text \<open>The dictionary returned by \<open>extract_paper_info\<close>.\<close>

record paper =
  date :: string
  number :: nat
  arxiv_id :: string
  filename :: string
  path :: string

text \<open>
  The f-string of \<open>main\<close> in \<open>pull_papers.py\<close>:
  \<^verbatim>\<open>f"{dt.strftime('%Y%m%d')}_paper{i}_{arxiv_id}.pdf"\<close>
\<close>

definition encode_filename :: "datetime \<Rightarrow> nat \<Rightarrow> string \<Rightarrow> string" where
  "encode_filename dt i aid = strftime_compact dt @ ''_paper'' @ str_nat i @ ''_'' @ aid @ ''.pdf''"

text \<open>\<^verbatim>\<open>re.match(r'(\d{8})_paper(\d+)_(.+)\.pdf', filename)\<close>\<close>

definition filename_pattern :: "item list" where
  "filename_pattern =
     [Grp (exactly is_digit 8), Lit ''_paper'', Grp (one_or_more is_digit), Lit ''_'',
      Grp (one_or_more not_newline), Lit ''.pdf'']"

text \<open>
  \<open>extract_paper_info\<close>: \<open>Inr None\<close> is the return value \<open>None\<close>, \<open>Inl e\<close> an
  exception that leaves the function.
\<close>

definition extract_paper_info :: "string \<Rightarrow> error + paper option" where
  "extract_paper_info pdf_path =
     (let fname = basename pdf_path in
      case re_match filename_pattern fname of
        Some [date_str, paper_num, aid] \<Rightarrow>
          (case strptime_compact date_str of
             Inl e \<Rightarrow> Inl e
           | Inr dt \<Rightarrow>
               Inr (Some \<lparr>date = strftime_iso dt, number = int_of_digits paper_num,
                          arxiv_id = aid, filename = fname, path = pdf_path\<rparr>))
      | _ \<Rightarrow> Inr None)"

text \<open>
  The eight-digit component read as a calendar date: four digits of year, two of month,
  two of day, within the ranges of the calendar.
\<close>

definition valid_yyyymmdd :: "string \<Rightarrow> bool" where
  "valid_yyyymmdd ds =
     valid_date \<lparr>year = int_of_digits (take 4 ds), month = int_of_digits (take 2 (drop 4 ds)),
                 day = int_of_digits (take 2 (drop 6 ds))\<rparr>"

section \<open>The environment of the two scripts\<close>

text \<open>
  The scripts act on the file system, the network, the log, the console and the clock.
  A \<open>world\<close> holds the regular files (path to content) and the trace of every other
  effect in the order in which it happened.  Directories are not tracked and writing a
  file never fails; the run is sequential and nothing else touches the files.
\<close>

datatype level = DEBUG | INFO | WARNING | ERROR

datatype event =
    Log level string
  | Print string
  | HttpGet string
  | Sleep nat
  | MakeDirs string

record world =
  files :: "string \<rightharpoonup> string"
  trace :: "event list"

definition emit :: "event list \<Rightarrow> world \<Rightarrow> world" where
  "emit es w = w\<lparr>trace := trace w @ es\<rparr>"

text \<open>
  What \<open>requests.get\<close> hands back: \<open>body\<close> is \<open>resp.text\<close>, \<open>chunks\<close> is what
  \<open>iter_content\<close> yields, and \<open>broken\<close> the exception that ends the stream early, if
  any.
\<close>

record response =
  status_code :: nat
  reason :: string
  body :: string
  chunks :: "string list"
  broken :: "error option"

text \<open>
  The network answers a request for a URL with an exception or a response; the answer
  may depend on everything that happened before.
\<close>

type_synonym network = "event list \<Rightarrow> string \<Rightarrow> error + response"

definition requests_get :: "network \<Rightarrow> string \<Rightarrow> world \<Rightarrow> (error + response) \<times> world" where
  "requests_get net url w = (net (trace w) url, emit [HttpGet url] w)"

text \<open>\<open>resp.raise_for_status()\<close>: HTTPError, a RequestException, for 4xx and 5xx.\<close>

definition raise_for_status :: "string \<Rightarrow> response \<Rightarrow> error + unit" where
  "raise_for_status url resp =
     (if 400 \<le> status_code resp \<and> status_code resp < 500 then
        Inl (RequestException (str_nat (status_code resp) @ '' Client Error: '' @ reason resp @
                               '' for url: '' @ url))
      else if 500 \<le> status_code resp \<and> status_code resp < 600 then
        Inl (RequestException (str_nat (status_code resp) @ '' Server Error: '' @ reason resp @
                               '' for url: '' @ url))
      else Inr ())"

text \<open>\<open>os.path.join\<close> of two components (POSIX).\<close>

definition path_join :: "string \<Rightarrow> string \<Rightarrow> string" where
  "path_join a b =
     (if prefix ''/'' b then b
      else if a = [] \<or> suffix ''/'' a then a @ b
      else a @ ''/'' @ b)"

text \<open>The two symbols of the console messages, by their UTF-8 bytes.\<close>

definition sym_arrow :: string where
  "sym_arrow = [CHR 0xE2, CHR 0x86, CHR 0xB3]"

definition sym_cross :: string where
  "sym_cross = [CHR 0xE2, CHR 0x9D, CHR 0x8C]"

definition newline :: string where
  "newline = [CHR 0x0A]"

section \<open>Listing Resolver: \<open>get_arxiv_ids\<close>\<close>

text \<open>\<open>s.split(c)\<close> for a one-character separator; the result is never empty.\<close>

fun split_on :: "char \<Rightarrow> string \<Rightarrow> string list" where
  "split_on c [] = [ [] ]"
| "split_on c (x # xs) =
     (if x = c then [] # split_on c xs
      else (case split_on c xs of
              y # ys \<Rightarrow> (x # y) # ys
            | [] \<Rightarrow> [ [x] ]))"

text \<open>
  An anchor selected by \<open>soup.select("div.w-full h3 a")\<close> is kept as its \<open>href\<close>
  attribute, \<open>None\<close> when the element has none.  Parsing and selecting are the HTML
  library's; they enter as a function from the page text to the matching anchors in
  document order.
\<close>

type_synonym anchor = "string option"

text \<open>
  \<^verbatim>\<open>[a["href"].split("/")[-1] for a in anchors]\<close>; \<open>a["href"]\<close> raises KeyError on
  an anchor without the attribute.
\<close>

fun anchor_ids :: "anchor list \<Rightarrow> error + string list" where
  "anchor_ids [] = Inr []"
| "anchor_ids (a # as) =
     (case a of
        None \<Rightarrow> Inl (KeyError ''href'')
      | Some href \<Rightarrow>
          (case anchor_ids as of
             Inl e \<Rightarrow> Inl e
           | Inr ids \<Rightarrow> Inr (last (split_on (CHR ''/'') href) # ids)))"

fun join_with :: "string \<Rightarrow> string list \<Rightarrow> string" where
  "join_with sep [] = []"
| "join_with sep [x] = x"
| "join_with sep (x # y # ys) = x @ sep @ join_with sep (y # ys)"

text \<open>
  The \<open>repr\<close> of a list of strings, for strings without quotes, backslashes or
  non-printable characters.
\<close>

definition repr_list :: "string list \<Rightarrow> string" where
  "repr_list xs = ''['' @ join_with '', '' (map (\<lambda>s. [CHR 0x27] @ s @ [CHR 0x27]) xs) @ '']''"

text \<open>The two \<open>except\<close> clauses of \<open>get_arxiv_ids\<close>: log and raise again.\<close>

definition listing_failed :: "string \<Rightarrow> error \<Rightarrow> world \<Rightarrow> (error + string list) \<times> world" where
  "listing_failed url e w =
     (if is_request_exception e
      then (Inl e, emit [Log ERROR (''Request failed for '' @ url @ '': '' @ str_error e)] w)
      else (Inl e, emit [Log ERROR (''Error parsing papers from '' @ url @ '': '' @ str_error e)] w))"

definition get_arxiv_ids ::
  "network \<Rightarrow> (string \<Rightarrow> anchor list) \<Rightarrow> datetime \<Rightarrow> world \<Rightarrow> (error + string list) \<times> world"
where
  "get_arxiv_ids net select dt w =
     (let url = ''https://huggingface.co/papers/date/'' @ strftime_iso dt;
          w1 = emit [Log INFO (''Fetching papers from '' @ url)] w
      in case requests_get net url w1 of
           (Inl e, w2) \<Rightarrow> listing_failed url e w2
         | (Inr resp, w2) \<Rightarrow>
             (case raise_for_status url resp of
                Inl e \<Rightarrow> listing_failed url e w2
              | Inr _ \<Rightarrow>
                  (let anchors = take 5 (select (body resp))
                   in case anchor_ids anchors of
                        Inl e \<Rightarrow> listing_failed url e w2
                      | Inr arxiv_ids \<Rightarrow>
                          (Inr arxiv_ids,
                           emit [Log INFO (''Found '' @ str_nat (length arxiv_ids) @
                                           '' papers for '' @ strftime_iso dt),
                                 Log DEBUG (''ArXiv IDs: '' @ repr_list arxiv_ids)] w2))))"

section \<open>Document Fetcher: \<open>download_arxiv_pdf\<close>\<close>

text \<open>\<open>f.write(chunk)\<close> for every chunk of the stream, on the file opened at \<open>p\<close>.\<close>

fun write_chunks :: "string \<Rightarrow> string list \<Rightarrow> world \<Rightarrow> world" where
  "write_chunks p [] w = w"
| "write_chunks p (c # cs) w =
     write_chunks p cs
       (w\<lparr>files := (files w)(p \<mapsto> (case files w p of Some old \<Rightarrow> old @ c | None \<Rightarrow> c))\<rparr>)"

definition download_arxiv_pdf ::
  "network \<Rightarrow> string \<Rightarrow> string \<Rightarrow> string \<Rightarrow> world \<Rightarrow> (error + unit) \<times> world"
where
  "download_arxiv_pdf net aid dest_folder fname w =
     (let filepath = path_join dest_folder fname in
      if files w filepath \<noteq> None then
        (Inr (),
         emit [Log INFO (''File already exists: '' @ filepath @ '', skipping download''),
               Print (''    '' @ sym_arrow @ '' Already downloaded: '' @ fname)] w)
      else
        (let pdf_url = ''https://arxiv.org/pdf/'' @ aid @ ''.pdf'';
             w1 = emit [Log INFO (''Downloading '' @ pdf_url)] w
         in case requests_get net pdf_url w1 of
              (Inl e, w2) \<Rightarrow>
                (Inl e,
                 emit [Log ERROR (''Error downloading '' @ pdf_url @ '': '' @ str_error e)] w2)
            | (Inr resp, w2) \<Rightarrow>
                if status_code resp = 200 then
                  (let w3 = write_chunks filepath (chunks resp)
                              (w2\<lparr>files := (files w2)(filepath \<mapsto> [])\<rparr>)
                   in case broken resp of
                        Some e \<Rightarrow>
                          (Inl e,
                           emit [Log ERROR (''Error downloading '' @ pdf_url @ '': '' @
                                            str_error e)] w3)
                      | None \<Rightarrow>
                          (Inr (),
                           emit [Log INFO (''Successfully downloaded: '' @ pdf_url @ '' to '' @
                                           filepath),
                                 Print (''    '' @ sym_arrow @ '' Downloaded: '' @ pdf_url)] w3))
                else
                  (Inr (),
                   emit [Log WARNING (''PDF not found for '' @ aid @ '' (status '' @
                                      str_nat (status_code resp) @ '')''),
                         Print (''    '' @ sym_cross @ '' PDF not found for '' @ aid @
                                '' (status '' @ str_nat (status_code resp) @ '')'')] w2)))"

section \<open>Batch Downloader: \<open>main\<close> of \<open>pull_papers.py\<close>\<close>

text \<open>The comparison \<open>current <= end_date\<close>.\<close>

definition date_le :: "datetime \<Rightarrow> datetime \<Rightarrow> bool" where
  "date_le a b =
     (year a < year b \<or>
      (year a = year b \<and> (month a < month b \<or> (month a = month b \<and> day a \<le> day b))))"



text \<open>The body of the inner loop, for the \<open>i\<close>-th identifier of \<open>n\<close>.\<close>

definition download_step ::
  "network \<Rightarrow> string \<Rightarrow> datetime \<Rightarrow> nat \<Rightarrow> nat \<Rightarrow> string \<Rightarrow> world \<Rightarrow> world"
where
  "download_step net out_dir dt n i aid w =
     (let fname = encode_filename dt i aid in
      case download_arxiv_pdf net aid out_dir fname w of
        (Inr _, w1) \<Rightarrow>
          if i < n
          then emit [Log DEBUG ''Sleeping for 1 second before next download'', Sleep 1] w1
          else w1
      | (Inl e, w1) \<Rightarrow>
          (let error_msg = ''Error downloading '' @ aid @ '': '' @ str_error e
           in emit [Log ERROR error_msg, Print (''    '' @ sym_cross @ '' '' @ error_msg)] w1))"

text \<open>\<^verbatim>\<open>for i, arxiv_id in enumerate(arxiv_ids, 1)\<close>\<close>

fun download_loop ::
  "network \<Rightarrow> string \<Rightarrow> datetime \<Rightarrow> nat \<Rightarrow> (nat \<times> string) list \<Rightarrow> world \<Rightarrow> world"
where
  "download_loop net out_dir dt n [] w = w"
| "download_loop net out_dir dt n ((i, aid) # rest) w =
     download_loop net out_dir dt n rest (download_step net out_dir dt n i aid w)"





section \<open>Summary Generator: \<open>generate_markdown\<close>\<close>

text \<open>\<open>os.path.splitext\<close> (POSIX): split at the last dot of the last component,
  unless only dots precede it there.\<close>

definition splitext :: "string \<Rightarrow> string \<times> string" where
  "splitext p =
     (let sepIndex = rfind (CHR ''/'') p;
          dotIndex = rfind (CHR ''.'') p
      in if dotIndex > sepIndex \<and>
            list_ex (\<lambda>c. c \<noteq> CHR ''.'') (take (nat (dotIndex - (sepIndex + 1))) (drop (nat (sepIndex + 1)) p))
         then (take (nat dotIndex) p, drop (nat dotIndex) p)
         else (p, []))"

text \<open>
  The converter, \<open>markitdown.convert(path).text_content\<close>: from the files on disk and
  a path to the extracted text, or an exception.
\<close>

type_synonym converter = "(string \<rightharpoonup> string) \<Rightarrow> string \<Rightarrow> error + string"

definition md_path_of :: "string \<Rightarrow> paper \<Rightarrow> string" where
  "md_path_of markdown_dir p = path_join markdown_dir (fst (splitext (filename p)) @ ''.md'')"

definition md_content :: "paper \<Rightarrow> string \<Rightarrow> string" where
  "md_content p paper_summary =
     (let arxiv_url = ''https://arxiv.org/abs/'' @ arxiv_id p;
          huggingface_url = ''https://huggingface.co/papers/'' @ arxiv_id p
      in ''# Paper: '' @ arxiv_id p @ newline @ newline @
         ''- **Date**: '' @ date p @ newline @
         ''- **Paper Number**: '' @ str_nat (number p) @ newline @
         ''- **ArXiv ID**: ['' @ arxiv_id p @ '']('' @ arxiv_url @ '')'' @ newline @
         ''- **HuggingFace Link**: [View on HuggingFace]('' @ huggingface_url @ '')'' @
           newline @ newline @
         (if paper_summary \<noteq> []
          then ''## Paper'' @ newline @ newline @ paper_summary @ newline
          else ''## Summary'' @ newline @ newline @
               ''Failed to extract paper as markdown.'' @ newline))"

text \<open>The body of the loop over \<open>papers\<close>, with its \<open>try\<close> and \<open>except\<close>.\<close>

definition summarize_paper ::
  "converter \<Rightarrow> string \<Rightarrow> paper \<Rightarrow> string list \<times> world \<Rightarrow> string list \<times> world"
where
  "summarize_paper convert markdown_dir p = (\<lambda>(processed_files, w).
     (let md_path = md_path_of markdown_dir p;
          w1 = emit [Log INFO (''Processing PDF with MarkItDown: '' @ path p)] w
      in case convert (files w1) (path p) of
           Inl e \<Rightarrow>
             (processed_files,
              emit [Log ERROR (''Error processing PDF '' @ path p @ '': '' @ str_error e)] w1)
         | Inr paper_summary \<Rightarrow>
             (let w2 = w1\<lparr>files := (files w1)(md_path \<mapsto> md_content p paper_summary)\<rparr>
              in (processed_files @ [md_path],
                  emit [Log INFO (''Created markdown for paper: '' @ md_path)] w2))))"

fun summarize_all ::
  "converter \<Rightarrow> string \<Rightarrow> paper list \<Rightarrow> string list \<times> world \<Rightarrow> string list \<times> world"
where
  "summarize_all convert markdown_dir [] acc = acc"
| "summarize_all convert markdown_dir (p # ps) acc =
     summarize_all convert markdown_dir ps (summarize_paper convert markdown_dir p acc)"

text \<open>
  Modelled from the spec: the start of \<open>generate_markdown\<close>, which the source elides
  (\<^verbatim>\<open># ... existing code ...\<close>) and which builds \<open>papers\<close>.  The spec: it
  "enumerates files in the source directory, decodes each via Filename Codec, discards
  non-matching files and those whose decoded date falls outside the range".  The
  decoded date is the string YYYY-MM-DD of the record, read back as a date.
\<close>

definition date_of_iso :: "string \<Rightarrow> datetime" where
  "date_of_iso s =
     \<lparr>year = int_of_digits (take 4 s), month = int_of_digits (take 2 (drop 5 s)),
      day = int_of_digits (take 2 (drop 8 s))\<rparr>"

text \<open>
  Modelled from the spec: the test that a decoded date lies in the inclusive range
  from \<open>start_date\<close> to \<open>end_date\<close>.
\<close>

definition in_date_range :: "datetime \<Rightarrow> datetime \<Rightarrow> string \<Rightarrow> bool" where
  "in_date_range start_date end_date d =
     (date_le start_date (date_of_iso d) \<and> date_le (date_of_iso d) end_date)"

text \<open>
  Modelled from the spec: the enumeration of the source directory, whose entries are
  \<open>listing\<close>; an exception of the decoder is not caught.
\<close>

fun collect_papers ::
  "string \<Rightarrow> datetime \<Rightarrow> datetime \<Rightarrow> string list \<Rightarrow> error + paper list"
where
  "collect_papers papers_dir start_date end_date [] = Inr []"
| "collect_papers papers_dir start_date end_date (f # fs) =
     (case extract_paper_info (path_join papers_dir f) of
        Inl e \<Rightarrow> Inl e
      | Inr None \<Rightarrow> collect_papers papers_dir start_date end_date fs
      | Inr (Some p) \<Rightarrow>
          (case collect_papers papers_dir start_date end_date fs of
             Inl e \<Rightarrow> Inl e
           | Inr ps \<Rightarrow> Inr (if in_date_range start_date end_date (date p) then p # ps else ps)))"

text \<open>
  \<open>generate_markdown\<close>: the papers found, then the loop of the source, its closing
  log line and the list of the paths written.
\<close>

definition generate_markdown ::
  "converter \<Rightarrow> string list \<Rightarrow> string \<Rightarrow> string \<Rightarrow> datetime \<Rightarrow> datetime \<Rightarrow> world
   \<Rightarrow> (error + string list) \<times> world"
where
  "generate_markdown convert listing papers_dir markdown_dir start_date end_date w =
     (case collect_papers papers_dir start_date end_date listing of
        Inl e \<Rightarrow> (Inl e, w)
      | Inr papers \<Rightarrow>
          (case summarize_all convert markdown_dir papers ([], w) of
             (processed_files, w1) \<Rightarrow>
               (Inr processed_files,
                emit [Log INFO (''Processed '' @ str_nat (length processed_files) @
                                '' papers into markdown files'')] w1)))"

section \<open>Notions used to state the claims\<close>

text \<open>The URLs requested so far, and the events a step adds to the trace.\<close>

definition requests_made :: "world \<Rightarrow> string list" where
  "requests_made w = concat (map (\<lambda>e. case e of HttpGet u \<Rightarrow> [u] | _ \<Rightarrow> []) (trace w))"

definition events_since :: "world \<Rightarrow> world \<Rightarrow> event list" where
  "events_since w w' = drop (length (trace w)) (trace w')"

text \<open>The part of a link target after its last slash.\<close>

definition final_segment :: "string \<Rightarrow> string" where
  "final_segment href = rev (takeWhile (\<lambda>c. c \<noteq> CHR ''/'') (rev href))"




section \<open>Inputs of the worked examples\<close>

definition empty_world :: world where
  "empty_world = \<lparr>files = Map.empty, trace = []\<rparr>"

text \<open>A network on which every request raises a connection error.\<close>

definition net_refusing :: network where
  "net_refusing h url = Inl (RequestException ''connection refused'')"

text \<open>A network that answers every request with the given status.\<close>

definition net_status :: "nat \<Rightarrow> network" where
  "net_status n h url =
     Inr \<lparr>status_code = n, reason = ''reason'', body = ''<html>'', chunks = [''%PDF''],
          broken = None\<rparr>"

definition june15 :: datetime where
  "june15 = \<lparr>year = 2024, month = 6, day = 15\<rparr>"

text \<open>The events that matter for the pacing: requests and sleeps.\<close>

definition pacing :: "event list \<Rightarrow> event list" where
  "pacing evs = filter (\<lambda>e. case e of HttpGet u \<Rightarrow> True | Sleep n \<Rightarrow> True | _ \<Rightarrow> False) evs"

text \<open>A page on which eight anchors match.\<close>

definition eight_anchors :: "string \<Rightarrow> anchor list" where
  "eight_anchors page =
     [Some ''/papers/2401.00001'', Some ''/papers/2401.00002'', Some ''/papers/2401.00003'',
      Some ''/papers/2401.00004'', Some ''/papers/2401.00005'', Some ''/papers/2401.00006'',
      Some ''/papers/2401.00007'', Some ''/papers/2401.00008'']"


definition anchor_without_href :: "string \<Rightarrow> anchor list" where
  "anchor_without_href page = [Some ''/papers/2401.00001'', None]"

text \<open>A converter that always extracts a text, and one that always raises.\<close>

definition conv_ok :: converter where
  "conv_ok fs p = Inr ''Extracted text.''"

definition conv_failing :: converter where
  "conv_failing fs p = Inl (OtherError ''cannot convert'')"

definition june14 :: datetime where
  "june14 = \<lparr>year = 2024, month = 6, day = 14\<rparr>"

definition june16 :: datetime where
  "june16 = \<lparr>year = 2024, month = 6, day = 16\<rparr>"

text \<open>The record decoded from a file of 15 June 2024 in the directory \<open>papers\<close>.\<close>

definition paper_june15 :: paper where
  "paper_june15 =
     \<lparr>date = ''2024-06-15'', number = 1, arxiv_id = ''2401.00001'',
      filename = ''20240615_paper1_2401.00001.pdf'',
      path = ''papers/20240615_paper1_2401.00001.pdf''\<rparr>"

definition paper_may1 :: paper where
  "paper_may1 =
     \<lparr>date = ''2024-05-01'', number = 1, arxiv_id = ''2401.00002'',
      filename = ''20240501_paper1_2401.00002.pdf'',
      path = ''papers/20240501_paper1_2401.00002.pdf''\<rparr>"

section \<open>Properties of the filename codec\<close>

subsection \<open>Decimal numerals\<close>
















subsection \<open>The matcher\<close>









subsection \<open>Parsing a formatted date\<close>










lemma dropWhile_blank_digits:
  "list_all is_digit s \<Longrightarrow> dropWhile (\<lambda>c. c = CHR '' '') s = s"
  by (cases s) (auto simp: is_digit_def)




subsection \<open>Round trip\<close>








text \<open>An identifier that holds a slash is cut by \<open>os.path.basename\<close>.\<close>

lemma identifier_with_slash:
  "extract_paper_info (encode_filename \<lparr>year = 2024, month = 6, day = 15\<rparr> 1 ''2401/00001'') =
     Inr None"
  by code_simp

text \<open>
  Claim C2 says that a name with extra characters after \<open>.pdf\<close> decodes to none.
  \<open>re.match\<close> anchors the pattern at the start only, so such a name is decoded into a
  record.
\<close>

theorem trailing_characters_accepted:
  "extract_paper_info ''20240101_paper1_x.pdf.bak'' =
     Inr (Some \<lparr>date = ''2024-01-01'', number = 1, arxiv_id = ''x'',
                filename = ''20240101_paper1_x.pdf.bak'', path = ''20240101_paper1_x.pdf.bak''\<rparr>)"
  by code_simp

text \<open>The other two examples of the claim are rejected.\<close>

lemma extract_paper_info_no_match_examples:
  "extract_paper_info ''notes.txt'' = Inr None"
  "extract_paper_info ''2024-01-01_paper1_x.pdf'' = Inr None"
  by code_simp+

subsection \<open>Names that match but hold no calendar date\<close>

lemma first_some_mem: "first_some xs = Some v \<Longrightarrow> Some v \<in> set xs"
  by (induction xs rule: first_some.induct) auto

lemma re_match_Grp_elim:
  assumes "re_match (Grp c # r) s = Some caps"
  obtains n caps' where "n \<in> set (c s)" "caps = take n s # caps'" "re_match r (drop n s) = Some caps'"
proof -
  from assms have "Some caps \<in> set (map (\<lambda>n. map_option ((#) (take n s)) (re_match r (drop n s))) (c s))"
    by (intro first_some_mem) simp
  then obtain n where n: "n \<in> set (c s)"
    "Some caps = map_option ((#) (take n s)) (re_match r (drop n s))"
    by auto
  from n(2) obtain caps' where "re_match r (drop n s) = Some caps'" "caps = take n s # caps'"
    by (cases "re_match r (drop n s)") auto
  with n(1) show ?thesis using that by blast
qed

lemma re_match_Lit_elim:
  assumes "re_match (Lit l # r) s = Some caps"
  shows "prefix l s \<and> re_match r (drop (length l) s) = Some caps"
  using assms by (simp split: if_splits)

lemma alts_lengths: "n \<in> set (alts as s) \<Longrightarrow> n \<in> length ` set as \<and> n \<le> length s"
  by (auto simp: alts_def match_seq_def)

lemma strptime_compact_Inr:
  assumes "strptime_compact ds = Inr dt" and "length ds = 8" and "list_all is_digit ds"
  shows "valid_yyyymmdd ds"
proof -
  from assms(1) obtain Y m d where
    r: "re_match [Grp (alts re_Y), Grp (alts re_m), Grp (alts re_d)] ds = Some [Y, m, d]"
    and len: "length ds = length Y + length m + length d"
    and v: "valid_date \<lparr>year = int_of_digits Y, month = int_of_digits m,
                       day = int_of_digits (dropWhile (\<lambda>c. c = CHR '' '') d)\<rparr>"
    by (auto simp del: re_match.simps simp: strptime_compact_def Let_def
        split: option.splits list.splits if_splits)
  from r obtain n1 c1 where n1: "n1 \<in> set (alts re_Y ds)" "[Y, m, d] = take n1 ds # c1"
    "re_match [Grp (alts re_m), Grp (alts re_d)] (drop n1 ds) = Some c1"
    by (rule re_match_Grp_elim)
  from n1(3) obtain n2 c2 where n2: "n2 \<in> set (alts re_m (drop n1 ds))" "c1 = take n2 (drop n1 ds) # c2"
    "re_match [Grp (alts re_d)] (drop n2 (drop n1 ds)) = Some c2"
    by (rule re_match_Grp_elim)
  from n2(3) obtain n3 c3 where n3: "n3 \<in> set (alts re_d (drop n2 (drop n1 ds)))"
    "c2 = take n3 (drop n2 (drop n1 ds)) # c3"
    by (rule re_match_Grp_elim)
  have l1: "n1 = 4" using alts_lengths [OF n1(1)] by (auto simp: re_Y_def)
  have l2: "n2 = 1 \<or> n2 = 2" "n2 \<le> length (drop n1 ds)"
    using alts_lengths [OF n2(1)] by (auto simp: re_m_def)
  have l3: "n3 = 1 \<or> n3 = 2" "n3 \<le> length (drop n2 (drop n1 ds))"
    using alts_lengths [OF n3(1)] by (auto simp: re_d_def)
  have Y: "Y = take 4 ds" and m: "m = take n2 (drop 4 ds)" and d: "d = take n3 (drop (n2 + 4) ds)"
    using n1(2) n2(2) n3(2) l1 by auto
  have "length Y = 4" "length m = n2" "length d = n3"
    using Y m d l2 l3 l1 assms(2) by auto
  then have n: "n2 = 2" "n3 = 2" using len assms(2) l2(1) l3(1) by auto
  have "list_all is_digit d" using assms(3) d by (auto simp: list_all_iff dest: in_set_takeD in_set_dropD)
  then have "dropWhile (\<lambda>c. c = CHR '' '') d = d" by (rule dropWhile_blank_digits)
  then show ?thesis using v Y m d n by (simp add: valid_yyyymmdd_def)
qed

lemma re_match_filename_date:
  assumes "re_match filename_pattern s = Some caps"
  obtains ds pn aid where "caps = [ds, pn, aid]" "length ds = 8" "list_all is_digit ds"
proof -
  from assms obtain n1 c1 where 1: "n1 \<in> set (exactly is_digit 8 s)" "caps = take n1 s # c1"
    "re_match [Lit ''_paper'', Grp (one_or_more is_digit), Lit ''_'',
       Grp (one_or_more not_newline), Lit ''.pdf''] (drop n1 s) = Some c1"
    unfolding filename_pattern_def by (rule re_match_Grp_elim)
  have n1: "n1 = 8" "8 \<le> length s"
    using 1(1) length_takeWhile_le [of is_digit s] by (auto simp: exactly_def split: if_splits)
  let ?s1 = "drop (length ''_paper'') (drop n1 s)"
  have "re_match [Grp (one_or_more is_digit), Lit ''_'', Grp (one_or_more not_newline),
          Lit ''.pdf''] ?s1 = Some c1"
    using re_match_Lit_elim [OF 1(3)] by blast
  then obtain n2 c2 where 2: "c1 = take n2 ?s1 # c2"
    "re_match [Lit ''_'', Grp (one_or_more not_newline), Lit ''.pdf''] (drop n2 ?s1) = Some c2"
    by (rule re_match_Grp_elim)
  let ?s2 = "drop (length ''_'') (drop n2 ?s1)"
  have "re_match [Grp (one_or_more not_newline), Lit ''.pdf''] ?s2 = Some c2"
    using re_match_Lit_elim [OF 2(2)] by blast
  then obtain n3 c3 where 3: "c2 = take n3 ?s2 # c3"
    "re_match [Lit ''.pdf''] (drop n3 ?s2) = Some c3"
    by (rule re_match_Grp_elim)
  have "re_match [] (drop (length ''.pdf'') (drop n3 ?s2)) = Some c3"
    using re_match_Lit_elim [OF 3(2)] by blast
  then have "c3 = []" by simp
  moreover have "list_all is_digit (take n1 s)"
  proof -
    have L: "n1 \<le> length (takeWhile is_digit s)"
      using 1(1) by (auto simp: exactly_def split: if_splits)
    have "take n1 (takeWhile is_digit s) =
          take n1 (take (length (takeWhile is_digit s)) s)"
      by (subst takeWhile_eq_take) (rule refl)
    also have "\<dots> = take n1 s" using L by (simp add: min_def)
    finally have "set (take n1 s) \<subseteq> set (takeWhile is_digit s)"
      by (metis set_take_subset)
    then show ?thesis
      using set_takeWhileD [of _ is_digit s] by (auto simp: list_all_iff)
  qed
  ultimately show ?thesis using that 1(2) 2(1) 3(1) n1 by simp
qed

text \<open>
  Claim C10.  When the name matches the pattern and its eight digits are not a calendar
  date, \<open>extract_paper_info\<close> neither returns none nor a record: the ValueError of
  \<open>strptime\<close> leaves it.
\<close>

theorem invalid_date_raises:
  assumes "re_match filename_pattern (basename p) = Some caps"
    and "\<not> valid_yyyymmdd (hd caps)"
  shows "\<exists>msg. extract_paper_info p = Inl (ValueError msg)"
proof -
  from assms(1) obtain ds pn aid where c: "caps = [ds, pn, aid]" "length ds = 8"
    "list_all is_digit ds"
    by (rule re_match_filename_date)
  have "\<exists>msg. strptime_compact ds = Inl (ValueError msg)"
  proof (cases "strptime_compact ds")
    case (Inl e)
    then show ?thesis
      by (auto simp del: re_match.simps simp: strptime_compact_def Let_def
          split: option.splits list.splits if_splits)
  next
    case (Inr dt)
    then show ?thesis using strptime_compact_Inr [OF Inr c(2,3)] assms(2) c(1) by simp
  qed
  then show ?thesis using assms(1) c(1)
    by (auto simp del: re_match.simps simp: extract_paper_info_def)
qed

theorem invalid_date_raises_witness:
  "extract_paper_info ''20241399_paper1_x.pdf'' = Inl (ValueError ''unconverted data remains'')"
proof -
  have m: "re_match filename_pattern (basename ''20241399_paper1_x.pdf'') = Some [''20241399'', ''1'', ''x'']"
    by code_simp
  have v: "\<not> valid_yyyymmdd (hd [''20241399'', ''1'', ''x''])"
    by code_simp
  have e: "extract_paper_info ''20241399_paper1_x.pdf'' = Inl (ValueError ''unconverted data remains'')"
    by code_simp
  from invalid_date_raises [OF m v] show ?thesis using e by simp
qed

section \<open>Properties of the Document Fetcher\<close>

lemma files_emit [simp]: "files (emit es w) = files w"
  by (simp add: emit_def)

lemma trace_emit [simp]: "trace (emit es w) = trace w @ es"
  by (simp add: emit_def)

lemma emit_emit: "emit es (emit ds w) = emit (ds @ es) w"
  by (simp add: emit_def)

lemma requests_made_emit:
  "requests_made (emit es w) =
     requests_made w @ concat (map (\<lambda>e. case e of HttpGet u \<Rightarrow> [u] | _ \<Rightarrow> []) es)"
  by (simp add: requests_made_def)

lemma events_since_emit [simp]: "events_since w (emit es w) = es"
  by (simp add: events_since_def)

lemma download_existing:
  assumes "files w (path_join dest_folder fname) \<noteq> None"
  shows "download_arxiv_pdf net aid dest_folder fname w =
           (Inr (),
            emit [Log INFO (''File already exists: '' @ path_join dest_folder fname @
                            '', skipping download''),
                  Print (''    '' @ sym_arrow @ '' Already downloaded: '' @ fname)] w)"
  using assms by (simp add: download_arxiv_pdf_def Let_def)

lemma download_existing_props:
  assumes "files w (path_join dest_folder fname) \<noteq> None"
  shows "\<exists>w'. download_arxiv_pdf net aid dest_folder fname w = (Inr (), w') \<and>
              files w' = files w \<and> requests_made w' = requests_made w"
  by (simp add: download_existing [OF assms] requests_made_emit)

lemma suffix_single: "suffix [c] s = (s \<noteq> [] \<and> last s = c)"
  by (cases s rule: rev_cases) (auto simp: suffix_def)

lemma example_download:
  "download_arxiv_pdf (net_status 200) ''2401.00001'' ''papers'' ''20240615_paper1_2401.00001.pdf''
     empty_world =
   (Inr (),
    \<lparr>files = [''papers/20240615_paper1_2401.00001.pdf'' \<mapsto> ''%PDF''],
     trace = [Log INFO ''Downloading https://arxiv.org/pdf/2401.00001.pdf'',
              HttpGet ''https://arxiv.org/pdf/2401.00001.pdf'',
              Log INFO ''Successfully downloaded: https://arxiv.org/pdf/2401.00001.pdf to papers/20240615_paper1_2401.00001.pdf'',
              Print (''    '' @ sym_arrow @ '' Downloaded: https://arxiv.org/pdf/2401.00001.pdf'')]\<rparr>)"
  by (simp add: download_arxiv_pdf_def Let_def path_join_def suffix_single empty_world_def
      net_status_def requests_get_def emit_def)

text \<open>
  Claim C3.  When a file exists at the destination path, \<open>download_arxiv_pdf\<close>
  returns normally, leaves the files as they are and requests nothing; so does a second
  call for the same destination after any first call that left the file there.
\<close>

theorem idempotent_skip:
  "(files w (path_join dest_folder fname) \<noteq> None \<longrightarrow>
      (\<exists>w'. download_arxiv_pdf net aid dest_folder fname w = (Inr (), w') \<and>
            files w' = files w \<and> requests_made w' = requests_made w)) \<and>
   (\<forall>r w1. download_arxiv_pdf net aid dest_folder fname w = (r, w1) \<and>
           files w1 (path_join dest_folder fname) \<noteq> None \<longrightarrow>
      (\<exists>w2. download_arxiv_pdf net aid dest_folder fname w1 = (Inr (), w2) \<and>
            files w2 = files w1 \<and> requests_made w2 = requests_made w1))"
  using download_existing_props by blast

theorem idempotent_skip_witness:
  "\<exists>w1 w2.
     download_arxiv_pdf (net_status 200) ''2401.00001'' ''papers''
       ''20240615_paper1_2401.00001.pdf'' empty_world = (Inr (), w1) \<and>
     files w1 ''papers/20240615_paper1_2401.00001.pdf'' = Some ''%PDF'' \<and>
     requests_made w1 = [''https://arxiv.org/pdf/2401.00001.pdf''] \<and>
     download_arxiv_pdf (net_status 200) ''2401.00001'' ''papers''
       ''20240615_paper1_2401.00001.pdf'' w1 = (Inr (), w2) \<and>
     files w2 = files w1 \<and> requests_made w2 = requests_made w1"
proof -
  let ?w1 = "\<lparr>files = [''papers/20240615_paper1_2401.00001.pdf'' \<mapsto> ''%PDF''],
     trace = [Log INFO ''Downloading https://arxiv.org/pdf/2401.00001.pdf'',
              HttpGet ''https://arxiv.org/pdf/2401.00001.pdf'',
              Log INFO ''Successfully downloaded: https://arxiv.org/pdf/2401.00001.pdf to papers/20240615_paper1_2401.00001.pdf'',
              Print (''    '' @ sym_arrow @ '' Downloaded: https://arxiv.org/pdf/2401.00001.pdf'')]\<rparr>"
  have p: "path_join ''papers'' ''20240615_paper1_2401.00001.pdf'' =
             ''papers/20240615_paper1_2401.00001.pdf''"
    by (simp add: path_join_def suffix_single)
  have e: "files ?w1 (path_join ''papers'' ''20240615_paper1_2401.00001.pdf'') \<noteq> None"
    by (simp add: p)
  have r: "requests_made ?w1 = [''https://arxiv.org/pdf/2401.00001.pdf'']"
    by (simp add: requests_made_def)
  from idempotent_skip [of empty_world "''papers''" "''20240615_paper1_2401.00001.pdf''"
      "net_status 200" "''2401.00001''"] example_download e
  obtain w2 where "download_arxiv_pdf (net_status 200) ''2401.00001'' ''papers''
       ''20240615_paper1_2401.00001.pdf'' ?w1 = (Inr (), w2)"
     "files w2 = files ?w1" "requests_made w2 = requests_made ?w1"
    by blast
  with example_download r show ?thesis by simp
qed

lemma write_chunks_files:
  "files (write_chunks p cs w) q = (if q = p then (case files w p of None \<Rightarrow> (if cs = [] then None else Some (concat cs)) | Some old \<Rightarrow> Some (old @ concat cs)) else files w q)"
  by (induction cs arbitrary: w) (auto split: option.splits)

lemma trace_write_chunks [simp]: "trace (write_chunks p cs w) = trace w"
  by (induction cs arbitrary: w) auto

lemma download_not_found:
  assumes "files w (path_join dest_folder fname) = None"
    and "net (trace w @ [Log INFO (''Downloading https://arxiv.org/pdf/'' @ aid @ ''.pdf'')])
             (''https://arxiv.org/pdf/'' @ aid @ ''.pdf'') = Inr resp"
    and "status_code resp \<noteq> 200"
  shows "download_arxiv_pdf net aid dest_folder fname w =
           (Inr (),
            emit [Log INFO (''Downloading https://arxiv.org/pdf/'' @ aid @ ''.pdf''),
                  HttpGet (''https://arxiv.org/pdf/'' @ aid @ ''.pdf''),
                  Log WARNING (''PDF not found for '' @ aid @ '' (status '' @
                               str_nat (status_code resp) @ '')''),
                  Print (''    '' @ sym_cross @ '' PDF not found for '' @ aid @
                         '' (status '' @ str_nat (status_code resp) @ '')'')] w)"
  using assms by (simp add: download_arxiv_pdf_def Let_def requests_get_def emit_def)

text \<open>
  Claim C4.  When no file exists at the destination path and the response has a status
  other than 200, \<open>download_arxiv_pdf\<close> logs a warning, creates no file and returns
  normally.
\<close>

theorem soft_failure:
  assumes "files w (path_join dest_folder fname) = None"
    and "net (trace w @ [Log INFO (''Downloading https://arxiv.org/pdf/'' @ aid @ ''.pdf'')])
             (''https://arxiv.org/pdf/'' @ aid @ ''.pdf'') = Inr resp"
    and "status_code resp \<noteq> 200"
  shows "\<exists>w'. download_arxiv_pdf net aid dest_folder fname w = (Inr (), w') \<and>
              files w' = files w \<and> files w' (path_join dest_folder fname) = None \<and>
              Log WARNING (''PDF not found for '' @ aid @ '' (status '' @
                           str_nat (status_code resp) @ '')'') \<in> set (events_since w w')"
  using assms(1) download_not_found [of w dest_folder fname net aid resp, OF assms] by simp

theorem soft_failure_witness:
  "\<exists>w'. download_arxiv_pdf (net_status 404) ''2401.00001'' ''papers''
           ''20240615_paper1_2401.00001.pdf'' empty_world = (Inr (), w') \<and>
         files w' = files empty_world \<and>
         files w' (path_join ''papers'' ''20240615_paper1_2401.00001.pdf'') = None \<and>
         Log WARNING ''PDF not found for 2401.00001 (status 404)''
           \<in> set (events_since empty_world w')"
proof -
  have a: "files empty_world (path_join ''papers'' ''20240615_paper1_2401.00001.pdf'') = None"
    by (simp add: empty_world_def)
  have b: "net_status 404
             (trace empty_world @ [Log INFO (''Downloading https://arxiv.org/pdf/'' @ ''2401.00001'' @ ''.pdf'')])
             (''https://arxiv.org/pdf/'' @ ''2401.00001'' @ ''.pdf'') =
           Inr \<lparr>status_code = 404, reason = ''reason'', body = ''<html>'', chunks = [''%PDF''],
                broken = None\<rparr>"
    by (simp add: net_status_def)
  have c: "status_code \<lparr>status_code = 404, reason = ''reason'', body = ''<html>'',
             chunks = [''%PDF''], broken = None\<rparr> \<noteq> 200"
    by simp
  have s: "str_nat 404 = ''404''" by code_simp
  from soft_failure [of empty_world "''papers''" "''20240615_paper1_2401.00001.pdf''"
      "net_status 404" "''2401.00001''", OF a b c]
  show ?thesis by (simp add: s)
qed

section \<open>Properties of the Listing Resolver\<close>

lemma split_on_not_Nil [simp]: "split_on c s \<noteq> []"
  by (induction s) (auto split: list.splits)

lemma split_on_two: "c \<in> set s \<Longrightarrow> \<exists>y z zs. split_on c s = y # z # zs"
proof (induction s)
  case Nil
  then show ?case by simp
next
  case (Cons x xs)
  show ?case
  proof (cases "x = c")
    case True
    then show ?thesis by (cases "split_on c xs") auto
  next
    case False
    then obtain y z zs where "split_on c xs = y # z # zs" using Cons by auto
    then show ?thesis using False by simp
  qed
qed

lemma last_split_on: "last (split_on c s) = rev (takeWhile (\<lambda>x. x \<noteq> c) (rev s))"
proof (induction s)
  case Nil
  then show ?case by simp
next
  case (Cons x xs)
  show ?case
  proof (cases "c \<in> set xs")
    case True
    then have "rev (takeWhile (\<lambda>x. x \<noteq> c) (rev xs @ [x])) = rev (takeWhile (\<lambda>x. x \<noteq> c) (rev xs))"
      by (simp add: takeWhile_append1)
    moreover have "last (split_on c (x # xs)) = last (split_on c xs)"
      using split_on_two [OF True] by auto
    ultimately show ?thesis using Cons by simp
  next
    case False
    then have t: "takeWhile (\<lambda>x. x \<noteq> c) (rev xs) = rev xs" by auto
    have s: "split_on c xs = [xs]" using False by (induction xs) auto
    have "takeWhile (\<lambda>x. x \<noteq> c) (rev xs @ [x]) = rev xs @ takeWhile (\<lambda>x. x \<noteq> c) [x]"
      using False by (intro takeWhile_append2) auto
    then show ?thesis using s by simp
  qed
qed

lemma last_split_slash: "last (split_on (CHR ''/'') href) = final_segment href"
  by (simp add: last_split_on final_segment_def)

lemma anchor_ids_all_Some:
  "\<forall>a \<in> set as. a \<noteq> None \<Longrightarrow> anchor_ids as = Inr (map (\<lambda>a. final_segment (the a)) as)"
  by (induction as) (auto simp: last_split_slash)

lemma get_arxiv_ids_success:
  assumes "net (trace w @ [Log INFO (''Fetching papers from https://huggingface.co/papers/date/'' @ strftime_iso dt)])
             (''https://huggingface.co/papers/date/'' @ strftime_iso dt) = Inr resp"
    and "\<not> (400 \<le> status_code resp \<and> status_code resp < 600)"
    and "\<forall>a \<in> set (take 5 (select (body resp))). a \<noteq> None"
  shows "fst (get_arxiv_ids net select dt w) =
           Inr (map (\<lambda>a. final_segment (the a)) (take 5 (select (body resp))))"
  using assms(1,2) anchor_ids_all_Some [OF assms(3)]
  by (auto simp: get_arxiv_ids_def Let_def requests_get_def raise_for_status_def emit_def)

text \<open>
  Claim C5, as amended.  For a page that was fetched with a status outside 400 to 599
  and whose first five matching anchors all carry a link target, \<open>get_arxiv_ids\<close>
  returns the final path segments of the link targets of the first five matching
  anchors, in document order: at most five, exactly five when eight anchors match, none
  when none matches.
\<close>

theorem listing_cap:
  assumes "net (trace w @ [Log INFO (''Fetching papers from https://huggingface.co/papers/date/'' @ strftime_iso dt)])
             (''https://huggingface.co/papers/date/'' @ strftime_iso dt) = Inr resp"
    and "\<not> (400 \<le> status_code resp \<and> status_code resp < 600)"
    and "select (body resp) = anchors"
    and "\<forall>a \<in> set (take 5 anchors). a \<noteq> None"
  shows "\<exists>ids. fst (get_arxiv_ids net select dt w) = Inr ids \<and>
           ids = map (\<lambda>a. final_segment (the a)) (take 5 anchors) \<and>
           length ids \<le> 5 \<and>
           (length anchors = 8 \<longrightarrow> length ids = 5) \<and>
           (anchors = [] \<longrightarrow> ids = [])"
  using get_arxiv_ids_success [of net w dt resp select] assms by auto

theorem listing_cap_witness:
  "fst (get_arxiv_ids (net_status 200) eight_anchors june15 empty_world) =
     Inr [''2401.00001'', ''2401.00002'', ''2401.00003'', ''2401.00004'', ''2401.00005'']"
proof -
  let ?resp = "\<lparr>status_code = 200, reason = ''reason'', body = ''<html>'', chunks = [''%PDF''],
                broken = None\<rparr>"
  have a: "net_status 200
      (trace empty_world @ [Log INFO (''Fetching papers from https://huggingface.co/papers/date/'' @ strftime_iso june15)])
      (''https://huggingface.co/papers/date/'' @ strftime_iso june15) = Inr ?resp"
    by (simp add: net_status_def)
  have b: "\<not> (400 \<le> status_code ?resp \<and> status_code ?resp < 600)" by simp
  have c: "\<forall>a \<in> set (take 5 (eight_anchors (body ?resp))). a \<noteq> None"
    by (simp add: eight_anchors_def)
  have m: "map (\<lambda>a. final_segment (the a)) (take 5 (eight_anchors (body ?resp))) =
      [''2401.00001'', ''2401.00002'', ''2401.00003'', ''2401.00004'', ''2401.00005'']"
    by code_simp
  from listing_cap [of "net_status 200" empty_world june15 ?resp eight_anchors, OF a b refl c]
  show ?thesis by (simp only: m) blast
qed

text \<open>
  Claim C5 as stated covers every page that was fetched.  On a page where one of the
  first five matching anchors has no \<open>href\<close>, the lookup raises KeyError, which
  \<open>get_arxiv_ids\<close> logs and raises again.
\<close>

theorem listing_cap_counterexample:
  "net_status 200 [Log INFO (''Fetching papers from https://huggingface.co/papers/date/'' @ strftime_iso june15)]
     (''https://huggingface.co/papers/date/'' @ strftime_iso june15) =
     Inr \<lparr>status_code = 200, reason = ''reason'', body = ''<html>'', chunks = [''%PDF''],
          broken = None\<rparr> \<and>
   fst (get_arxiv_ids (net_status 200) anchor_without_href
          june15 empty_world) = Inl (KeyError ''href'')"
  by (simp add: get_arxiv_ids_def Let_def requests_get_def net_status_def raise_for_status_def
      listing_failed_def empty_world_def anchor_without_href_def)

section \<open>Properties of the Batch Downloader\<close>

subsection \<open>The trace only grows\<close>


lemma prefix_emit: "prefix (trace w) (trace (emit es w))"
  by simp


lemma prefix_listing_failed: "prefix (trace w) (trace (snd (listing_failed url e w)))"
  by (simp add: listing_failed_def)






subsection \<open>Every date of the range is processed\<close>


lemma date_le_refl: "date_le a a"
  by (simp add: date_le_def)


lemma date_le_antisym: "date_le a b \<Longrightarrow> date_le b a \<Longrightarrow> a = (b :: datetime)"
  by (auto simp: date_le_def)





subsection \<open>Every identifier of a date is attempted\<close>











text \<open>
  Claim C7 says that a sleep separates every two consecutive attempts of a date, also
  after an attempt that raises.  The sleep stands in the \<open>try\<close> block after the
  call, so an exception of the call skips it: of two identifiers whose downloads both
  raise, the second is requested right after the first.
\<close>

theorem no_sleep_after_failed_download:
  "pacing (trace (download_loop net_refusing ''papers'' june15 2 (enumerate 1 [''a'', ''b''])
                    empty_world)) =
     [HttpGet ''https://arxiv.org/pdf/a.pdf'', HttpGet ''https://arxiv.org/pdf/b.pdf'']"
  by code_simp

text \<open>After a soft failure, a call that returns normally, the sleep is there.\<close>

lemma sleep_after_soft_failure:
  "pacing (trace (download_loop (net_status 404) ''papers'' june15 2 (enumerate 1 [''a'', ''b''])
                    empty_world)) =
     [HttpGet ''https://arxiv.org/pdf/a.pdf'', Sleep 1, HttpGet ''https://arxiv.org/pdf/b.pdf'']"
  by code_simp

section \<open>Properties of the Summary Generator\<close>

subsection \<open>Paths\<close>












subsection \<open>The papers found and the documents written\<close>

lemma collect_papers_sound:
  "collect_papers pd s e listing = Inr ps \<Longrightarrow> p \<in> set ps \<Longrightarrow>
   \<exists>f \<in> set listing. extract_paper_info (path_join pd f) = Inr (Some p) \<and>
                       in_date_range s e (date p)"
proof (induction listing arbitrary: ps)
  case Nil
  then show ?case by simp
next
  case (Cons f fs)
  show ?case
  proof (cases "extract_paper_info (path_join pd f)")
    case (Inl err)
    then show ?thesis using Cons.prems by simp
  next
    case (Inr r)
    show ?thesis
    proof (cases r)
      case None
      then show ?thesis using Cons Inr by auto
    next
      case (Some p')
      then obtain ps' where ps': "collect_papers pd s e fs = Inr ps'"
        and ps: "ps = (if in_date_range s e (date p') then p' # ps' else ps')"
        using Cons.prems(1) Inr by (auto split: sum.splits)
      show ?thesis
      proof (cases "p \<in> set ps'")
        case True
        then show ?thesis using Cons.IH [OF ps'] by auto
      next
        case False
        then have "p = p'" "in_date_range s e (date p')"
          using Cons.prems(2) ps by (auto split: if_splits)
        then show ?thesis using Inr Some by auto
      qed
    qed
  qed
qed


lemma summarize_paper_Inl:
  assumes "convert (files w) (path p) = Inl e"
  shows "summarize_paper convert md p (acc, w) =
           (acc, emit [Log INFO (''Processing PDF with MarkItDown: '' @ path p),
                       Log ERROR (''Error processing PDF '' @ path p @ '': '' @ str_error e)] w)"
  using assms by (simp add: summarize_paper_def Let_def emit_def)

lemma summarize_paper_Inr:
  assumes "convert (files w) (path p) = Inr txt"
  shows "\<exists>w'. summarize_paper convert md p (acc, w) = (acc @ [md_path_of md p], w') \<and>
              files w' = (files w)(md_path_of md p \<mapsto> md_content p txt)"
  using assms by (simp add: summarize_paper_def Let_def emit_def)

lemma summarize_paper_cases:
  obtains (failed) e where "convert (files w) (path p) = Inl e"
      and "summarize_paper convert md p (acc, w) = (acc, snd (summarize_paper convert md p (acc, w)))"
      and "files (snd (summarize_paper convert md p (acc, w))) = files w"
    | (written) t where "convert (files w) (path p) = Inr t"
      and "summarize_paper convert md p (acc, w) =
         (acc @ [md_path_of md p], snd (summarize_paper convert md p (acc, w)))"
      and "files (snd (summarize_paper convert md p (acc, w))) =
         (files w)(md_path_of md p \<mapsto> md_content p t)"
proof (cases "convert (files w) (path p)")
  case (Inl e)
  then show ?thesis using failed [of e] summarize_paper_Inl [of convert w p e md acc] by simp
next
  case (Inr t)
  then show ?thesis using written [of t] summarize_paper_Inr [of convert w p t md acc] by auto
qed

lemma summarize_all_only:
  assumes "summarize_all convert md ps (acc, w) = (acc', w')"
  shows "(\<forall>q \<in> set acc'. q \<in> set acc \<or> (\<exists>p \<in> set ps. q = md_path_of md p)) \<and>
         (\<forall>q. files w' q \<noteq> files w q \<longrightarrow> (\<exists>p \<in> set ps. q = md_path_of md p))"
  using assms
proof (induction ps arbitrary: acc w)
  case Nil
  then show ?case by simp
next
  case (Cons p ps)
  let ?r = "summarize_paper convert md p (acc, w)"
  have r: "summarize_all convert md ps (fst ?r, snd ?r) = (acc', w')"
    using Cons.prems by simp
  note ih = Cons.IH [OF r]
  show ?case
  proof (cases rule: summarize_paper_cases [of convert w p md acc])
    case (failed e)
    then have "fst ?r = acc" by (metis fst_conv)
    then show ?thesis using ih failed(3) by auto
  next
    case (written t)
    then have "fst ?r = acc @ [md_path_of md p]" by (metis fst_conv)
    then show ?thesis using ih written(3) by (auto split: if_splits)
  qed
qed

lemma generate_markdown_only:
  assumes "generate_markdown convert listing pd md s e w = (r, w')"
    and "files w' q \<noteq> files w q \<or> (\<exists>processed. r = Inr processed \<and> q \<in> set processed)"
  shows "\<exists>f \<in> set listing. \<exists>p. extract_paper_info (path_join pd f) = Inr (Some p) \<and>
           in_date_range s e (date p) \<and> q = md_path_of md p"
proof (cases "collect_papers pd s e listing")
  case (Inl err)
  then show ?thesis using assms by (auto simp: generate_markdown_def)
next
  case (Inr ps)
  obtain processed w1 where sa: "summarize_all convert md ps ([], w) = (processed, w1)"
    by (cases "summarize_all convert md ps ([], w)")
  have r: "r = Inr processed" and w': "files w' = files w1"
    using assms(1) Inr sa by (auto simp: generate_markdown_def)
  have "\<exists>p \<in> set ps. q = md_path_of md p"
    using summarize_all_only [OF sa] assms(2) r w' by auto
  then show ?thesis using collect_papers_sound [OF Inr] by blast
qed

lemma generate_markdown_two_files:
  assumes "listing = [f1, f2] \<or> listing = [f2, f1]"
    and "extract_paper_info (path_join pd f1) = Inr (Some p1)"
    and "in_date_range s e (date p1)"
    and "extract_paper_info (path_join pd f2) = Inr (Some p2)"
    and "\<not> in_date_range s e (date p2)"
    and "convert (files w) (path p1) = Inr body_text"
  shows "\<exists>w'. generate_markdown convert listing pd md s e w = (Inr [md_path_of md p1], w') \<and>
              files w' = (files w)(md_path_of md p1 \<mapsto> md_content p1 body_text)"
proof -
  have c: "collect_papers pd s e listing = Inr [p1]"
    using assms(1-5) by auto
  obtain w1 where "summarize_paper convert md p1 ([], w) = ([] @ [md_path_of md p1], w1)"
    "files w1 = (files w)(md_path_of md p1 \<mapsto> md_content p1 body_text)"
    using summarize_paper_Inr [of convert w p1 body_text md "[]"] assms(6) by blast
  then show ?thesis by (simp add: generate_markdown_def c)
qed

text \<open>
  Claim C8, as amended.  Every path that \<open>generate_markdown\<close> returns or whose file
  it changes is the summary path of an entry of the directory that decodes and whose
  decoded date lies in the range.  For a directory of one matching entry in the range
  and one matching entry outside it, in either order, exactly one summary is written,
  the one of the entry in the range, provided the converter does not raise for it.
\<close>

theorem summary_filtering:
  "(\<forall>r w'. generate_markdown convert listing pd md s e w = (r, w') \<longrightarrow>
      (\<forall>q. files w' q \<noteq> files w q \<or> (\<exists>processed. r = Inr processed \<and> q \<in> set processed) \<longrightarrow>
           (\<exists>f \<in> set listing. \<exists>p. extract_paper_info (path_join pd f) = Inr (Some p) \<and>
              in_date_range s e (date p) \<and> q = md_path_of md p))) \<and>
   (\<forall>f1 f2 p1 p2 body_text.
      (listing = [f1, f2] \<or> listing = [f2, f1]) \<and>
      extract_paper_info (path_join pd f1) = Inr (Some p1) \<and> in_date_range s e (date p1) \<and>
      extract_paper_info (path_join pd f2) = Inr (Some p2) \<and> \<not> in_date_range s e (date p2) \<and>
      convert (files w) (path p1) = Inr body_text \<longrightarrow>
      (\<exists>w'. generate_markdown convert listing pd md s e w = (Inr [md_path_of md p1], w') \<and>
            files w' = (files w)(md_path_of md p1 \<mapsto> md_content p1 body_text)))"
proof (intro conjI allI impI)
  fix r w' q
  assume "generate_markdown convert listing pd md s e w = (r, w')"
    and "files w' q \<noteq> files w q \<or> (\<exists>processed. r = Inr processed \<and> q \<in> set processed)"
  then show "\<exists>f \<in> set listing. \<exists>p. extract_paper_info (path_join pd f) = Inr (Some p) \<and>
              in_date_range s e (date p) \<and> q = md_path_of md p"
    by (rule generate_markdown_only)
next
  fix f1 f2 p1 p2 body_text
  assume "(listing = [f1, f2] \<or> listing = [f2, f1]) \<and>
      extract_paper_info (path_join pd f1) = Inr (Some p1) \<and> in_date_range s e (date p1) \<and>
      extract_paper_info (path_join pd f2) = Inr (Some p2) \<and> \<not> in_date_range s e (date p2) \<and>
      convert (files w) (path p1) = Inr body_text"
  then show "\<exists>w'. generate_markdown convert listing pd md s e w = (Inr [md_path_of md p1], w') \<and>
            files w' = (files w)(md_path_of md p1 \<mapsto> md_content p1 body_text)"
    using generate_markdown_two_files [of listing f1 f2 pd p1 s e p2 convert w body_text md]
    by blast
qed

lemma example_decodes:
  "extract_paper_info (path_join ''papers'' ''20240615_paper1_2401.00001.pdf'') =
     Inr (Some paper_june15)"
  "in_date_range june14 june16 (date paper_june15)"
  "extract_paper_info (path_join ''papers'' ''20240501_paper1_2401.00002.pdf'') =
     Inr (Some paper_may1)"
  "\<not> in_date_range june14 june16 (date paper_may1)"
  "md_path_of ''summaries'' paper_june15 = ''summaries/20240615_paper1_2401.00001.md''"
  by code_simp+

theorem summary_filtering_witness:
  "fst (generate_markdown conv_ok
          [''20240501_paper1_2401.00002.pdf'', ''20240615_paper1_2401.00001.pdf'']
          ''papers'' ''summaries'' june14 june16 empty_world) =
     Inr [''summaries/20240615_paper1_2401.00001.md'']"
proof -
  have c: "conv_ok (files empty_world) (path paper_june15) = Inr ''Extracted text.''"
    by (simp add: conv_ok_def)
  from summary_filtering [of conv_ok
      "[''20240501_paper1_2401.00002.pdf'', ''20240615_paper1_2401.00001.pdf'']"
      "''papers''" "''summaries''" june14 june16 empty_world]
  have "\<exists>w'. generate_markdown conv_ok
          [''20240501_paper1_2401.00002.pdf'', ''20240615_paper1_2401.00001.pdf'']
          ''papers'' ''summaries'' june14 june16 empty_world =
          (Inr [md_path_of ''summaries'' paper_june15], w')"
    using example_decodes(1-4) c by blast
  then show ?thesis by (auto simp: example_decodes(5))
qed

text \<open>
  Claim C8 as stated promises the one summary for every such directory.  When the
  converter raises for the entry in the range, the \<open>except\<close> clause logs the error
  and nothing is written.
\<close>

theorem summary_filtering_counterexample:
  "extract_paper_info (path_join ''papers'' ''20240615_paper1_2401.00001.pdf'') =
     Inr (Some paper_june15) \<and>
   in_date_range june14 june16 (date paper_june15) \<and>
   extract_paper_info (path_join ''papers'' ''20240501_paper1_2401.00002.pdf'') =
     Inr (Some paper_may1) \<and>
   \<not> in_date_range june14 june16 (date paper_may1) \<and>
   fst (generate_markdown conv_failing
          [''20240615_paper1_2401.00001.pdf'', ''20240501_paper1_2401.00002.pdf'']
          ''papers'' ''summaries'' june14 june16 empty_world) = Inr [] \<and>
   files (snd (generate_markdown conv_failing
          [''20240615_paper1_2401.00001.pdf'', ''20240501_paper1_2401.00002.pdf'']
          ''papers'' ''summaries'' june14 june16 empty_world))
     ''summaries/20240615_paper1_2401.00001.md'' = None"
  by code_simp

subsection \<open>The shape of a summary document\<close>








end
